theory Spec2Isabelle
  imports Complex_Main
begin

section \<open>Python values and exceptions\<close>

text \<open>
  Exceptions of the source are values of \<open>error\<close>; a function that may raise returns
  \<open>error + 'a\<close> with \<open>Inl\<close> for the raised exception. \<open>TypeError\<close> and
  \<open>ValueError\<close> carry their message, since every merge failure of \<open>Fund.__add__\<close>
  is a \<open>ValueError\<close> and only the message tells the causes apart. \<open>ReError\<close>
  is \<open>re.error\<close>, raised when a pattern does not compile.

  A Python \<open>str\<close> is a \<open>string\<close>; a \<open>char\<close> stands for one code point below 256.
  A Python \<open>float\<close> is modelled by the real number it denotes: rounding, infinities and
  NaN are outside the model, and the concrete floats used below are dyadic rationals that
  a double represents exactly.
\<close>

datatype error =
    TypeError string
  | ValueError string
  | ReError
  | KeyError
  | IndexError
  | StopIteration

definition newline :: char where
  "newline = CHR 0x0A"

definition is_upper :: "char \<Rightarrow> bool" where
  "is_upper c = (c \<in> set ''ABCDEFGHIJKLMNOPQRSTUVWXYZ'')"

definition is_digit :: "char \<Rightarrow> bool" where
  "is_digit c = (c \<in> set ''0123456789'')"

text \<open>
  Truthiness, as the operator \<open>or\<close> reads it: \<open>x or y\<close> is \<open>x\<close> when \<open>x\<close> is truthy
  and \<open>y\<close> otherwise. \<open>None\<close>, the numbers \<open>0\<close> and \<open>0.0\<close> and the empty string
  are falsy.
\<close>

definition py_or :: "('a \<Rightarrow> bool) \<Rightarrow> 'a option \<Rightarrow> 'a option \<Rightarrow> 'a option" where
  "py_or truthy x y = (case x of None \<Rightarrow> y | Some v \<Rightarrow> if truthy v then x else y)"

definition truthy_int :: "int \<Rightarrow> bool" where
  "truthy_int n = (n \<noteq> 0)"

definition truthy_float :: "real \<Rightarrow> bool" where
  "truthy_float x = (x \<noteq> 0)"

definition truthy_str :: "string \<Rightarrow> bool" where
  "truthy_str s = (s \<noteq> [])"

text \<open>
  \<open>math.isclose(a, b)\<close> with its default tolerances \<open>rel_tol = 1e-09\<close> and
  \<open>abs_tol = 0.0\<close>: equal, or the distance is within the relative tolerance of either
  argument, or within the absolute tolerance.
\<close>

definition rel_tol :: real where
  "rel_tol = 1 / 10 ^ 9"

definition abs_tol :: real where
  "abs_tol = 0"

definition isclose :: "real \<Rightarrow> real \<Rightarrow> bool" where
  "isclose a b =
     (a = b \<or> \<bar>b - a\<bar> \<le> \<bar>rel_tol * b\<bar> \<or> \<bar>b - a\<bar> \<le> \<bar>rel_tol * a\<bar> \<or> \<bar>b - a\<bar> \<le> abs_tol)"

section \<open>funds.py: the Fund record\<close>

text \<open>
  The dataclass \<open>Fund\<close>. The field \<open>_name\<close> is \<open>names\<close> here and the field
  \<open>value\<close> is \<open>value'\<close>. \<open>_iterated\<close>, which only drives the one-row iteration of
  a fund, is left out.
\<close>

record Fund =
  isin :: string
  value_number :: "int option"
  quantity :: int
  names :: "string list"
  value' :: "real option"
  country :: "string option"
  currency :: "string option"

text \<open>
  The \<open>name\<close> argument of the constructor: \<open>None\<close>, a string, a list, or anything
  else (for which the constructor raises).
\<close>

datatype name_arg = NameNone | NameStr string | NameList "string list" | NameOther

subsection \<open>The ISIN pattern\<close>

text \<open>
  \<open>re.match(r"^(?P<pre>.*)(?P<isin>[A-Z]{2}[A-Z0-9]{10})(?P<post>.*)$", isin)\<close>.

  \<open>isin_shape\<close> is the group \<open>[A-Z]{2}[A-Z0-9]{10}\<close>. The dot matches every
  character but a newline, and \<open>$\<close> matches at the end of the string or just before a
  newline that ends it. The greedy \<open>pre\<close> first takes the whole newline-free prefix and
  gives characters back one at a time: \<open>isin_try i s\<close> tries \<open>pre\<close> of length
  \<open>i\<close>, then \<open>i - 1\<close>, down to \<open>0\<close>. With \<open>pre\<close> and the code fixed, the greedy
  \<open>post\<close> takes the newline-free run that follows, and \<open>$\<close> holds there or at no
  shorter \<open>post\<close> (\<open>dollar_ok\<close>).
\<close>

definition isin_shape :: "string \<Rightarrow> bool" where
  "isin_shape c =
     (length c = 12 \<and> list_all is_upper (take 2 c)
      \<and> list_all (\<lambda>x. is_upper x \<or> is_digit x) (drop 2 c))"

definition dollar_ok :: "string \<Rightarrow> bool" where
  "dollar_ok rest =
     (let r = dropWhile (\<lambda>c. c \<noteq> newline) rest in r = [] \<or> r = [newline])"

definition isin_at :: "string \<Rightarrow> nat \<Rightarrow> bool" where
  "isin_at s i = (isin_shape (take 12 (drop i s)) \<and> dollar_ok (drop (i + 12) s))"

definition isin_groups :: "string \<Rightarrow> nat \<Rightarrow> string \<times> string \<times> string" where
  "isin_groups s i =
     (take i s, take 12 (drop i s), takeWhile (\<lambda>c. c \<noteq> newline) (drop (i + 12) s))"

fun isin_try :: "nat \<Rightarrow> string \<Rightarrow> (string \<times> string \<times> string) option" where
  "isin_try 0 s = (if isin_at s 0 then Some (isin_groups s 0) else None)"
| "isin_try (Suc i) s =
     (if isin_at s (Suc i) then Some (isin_groups s (Suc i)) else isin_try i s)"

definition isin_match :: "string \<Rightarrow> (string \<times> string \<times> string) option" where
  "isin_match s = isin_try (length (takeWhile (\<lambda>c. c \<noteq> newline) s)) s"

subsection \<open>Fund.__init__\<close>

text \<open>
  The constructor returns the new record and the warnings it logged. The identity check
  comes first, the check of the name last.
\<close>

definition extra_warning :: "string \<Rightarrow> string \<Rightarrow> string" where
  "extra_warning given found =
     ''ISIN '' @ given @ '' contains extra characters before or after the ISIN number '' @ found"

definition Fund_init ::
  "string \<Rightarrow> int option \<Rightarrow> int \<Rightarrow> name_arg \<Rightarrow> real option \<Rightarrow> string option
     \<Rightarrow> string option \<Rightarrow> bool \<Rightarrow> error + (Fund \<times> string list)" where
  "Fund_init isin_in vn q nm v co cu check_isin =
     (case (if check_isin
            then (case isin_match isin_in of
                    None \<Rightarrow> Inl (TypeError (''Invalid ISIN: '' @ isin_in))
                  | Some (pre, code, post) \<Rightarrow>
                      Inr (code, if pre \<noteq> [] \<or> post \<noteq> []
                                 then [extra_warning isin_in code] else []))
            else Inr (isin_in, []))
      of Inl e \<Rightarrow> Inl e
       | Inr (code, warnings) \<Rightarrow>
           (case (case nm of
                    NameNone \<Rightarrow> Some []
                  | NameStr n \<Rightarrow> Some [n]
                  | NameList ns \<Rightarrow> Some ns
                  | NameOther \<Rightarrow> None)
            of None \<Rightarrow> Inl (TypeError ''Name must be a string or a list of strings'')
             | Some ns \<Rightarrow>
                 Inr (\<lparr>isin = code, value_number = vn, quantity = q, names = ns,
                       value' = v, country = co, currency = cu\<rparr>, warnings)))"

text \<open>The property \<open>name\<close>: the names joined with \<open>" | "\<close>.\<close>

fun join :: "string \<Rightarrow> string list \<Rightarrow> string" where
  "join sep [] = []"
| "join sep [x] = x"
| "join sep (x # y # ys) = x @ sep @ join sep (y # ys)"

definition name :: "Fund \<Rightarrow> string" where
  "name f = join '' | '' (names f)"

subsection \<open>Fund.__add__\<close>

text \<open>
  The merge. The right operand is a \<open>Fund\<close> by its type, so the \<open>TypeError\<close> for
  any other object has no counterpart here. \<open>self != other\<close> compares the identity
  codes (\<open>__eq__\<close>). The checks run in the order of the source, each raising a
  \<open>ValueError\<close> with its own message; the third one compares \<open>self.value\<close> with
  \<open>other.quantity\<close> (an integer, read as a float), as the source does. The merged
  record is built by the constructor, with the identity check enabled.
\<close>

definition Fund_add :: "Fund \<Rightarrow> Fund \<Rightarrow> error + (Fund \<times> string list)" where
  "Fund_add self other =
     (if isin self \<noteq> isin other
      then Inl (ValueError ''Cannot add funds with different ISINs'')
      else if value_number self \<noteq> None \<and> value_number other \<noteq> None
              \<and> value_number self \<noteq> value_number other
      then Inl (ValueError ''Cannot add funds with different value numbers'')
      else if value' self \<noteq> None \<and> value' other \<noteq> None
              \<and> \<not> isclose (the (value' self)) (real_of_int (quantity other))
      then Inl (ValueError ''Cannot add funds with different quantities'')
      else if country self \<noteq> None \<and> country other \<noteq> None
              \<and> country self \<noteq> country other
      then Inl (ValueError ''Cannot add funds with different countries'')
      else if currency self \<noteq> None \<and> currency other \<noteq> None
              \<and> currency self \<noteq> currency other
      then Inl (ValueError ''Cannot add funds with different currencies'')
      else Fund_init (isin self)
             (py_or truthy_int (value_number self) (value_number other))
             (quantity self + quantity other)
             (NameList (names self @ names other))
             (py_or truthy_float (value' self) (value' other))
             (py_or truthy_str (country self) (country other))
             (py_or truthy_str (currency self) (currency other))
             True)"

subsection \<open>Vocabulary of the merge properties\<close>

text \<open>
  Two optional fields \<open>agree\<close> when they do not both hold a value or hold the same one;
  two optional monetary values \<open>agree_close\<close> when they do not both hold a value or hold
  values that \<open>isclose\<close> accepts. \<open>held_truthy\<close> says that every reconciled field a
  fund holds is truthy: no \<open>0\<close>, no \<open>0.0\<close>, no empty string.
\<close>

definition agree :: "'a option \<Rightarrow> 'a option \<Rightarrow> bool" where
  "agree x y = (case (x, y) of (Some u, Some v) \<Rightarrow> u = v | _ \<Rightarrow> True)"

definition agree_close :: "real option \<Rightarrow> real option \<Rightarrow> bool" where
  "agree_close x y = (case (x, y) of (Some u, Some v) \<Rightarrow> isclose u v | _ \<Rightarrow> True)"

definition truthy_opt :: "('a \<Rightarrow> bool) \<Rightarrow> 'a option \<Rightarrow> bool" where
  "truthy_opt t x = (case x of None \<Rightarrow> True | Some v \<Rightarrow> t v)"

definition held_truthy :: "Fund \<Rightarrow> bool" where
  "held_truthy f =
     (truthy_opt truthy_int (value_number f) \<and> truthy_opt truthy_float (value' f)
      \<and> truthy_opt truthy_str (country f) \<and> truthy_opt truthy_str (currency f))"

text \<open>The two funds of \<open>test_fund_add\<close> in the repository's tests.\<close>

definition test_fund1 :: Fund where
  "test_fund1 = \<lparr>isin = ''IT1234567890'', value_number = Some 100, quantity = 10,
                  names = [''Test Fund''], value' = None, country = None, currency = None\<rparr>"

definition test_fund2 :: Fund where
  "test_fund2 = \<lparr>isin = ''IT1234567890'', value_number = None, quantity = 1,
                  names = [''Test Fund 2''], value' = None, country = None, currency = None\<rparr>"

text \<open>
  Two funds with the same identity whose monetary values \<open>2147483648.0\<close> and
  \<open>2147483648.5\<close> differ within the relative tolerance of \<open>isclose\<close>, and the two
  records that their merges return.
\<close>

definition close_fund1 :: Fund where
  "close_fund1 = \<lparr>isin = ''CH0012345678'', value_number = Some 100, quantity = 2147483648,
                   names = [''Fund A''], value' = Some 2147483648, country = None,
                   currency = Some ''CHF''\<rparr>"

definition close_fund2 :: Fund where
  "close_fund2 = \<lparr>isin = ''CH0012345678'', value_number = None, quantity = 2147483648,
                   names = [''Fund B''], value' = Some 2147483648.5, country = Some ''CH'',
                   currency = Some ''CHF''\<rparr>"

definition close_merged12 :: Fund where
  "close_merged12 = \<lparr>isin = ''CH0012345678'', value_number = Some 100, quantity = 4294967296,
                      names = [''Fund A'', ''Fund B''], value' = Some 2147483648,
                      country = Some ''CH'', currency = Some ''CHF''\<rparr>"

definition close_merged21 :: Fund where
  "close_merged21 = \<lparr>isin = ''CH0012345678'', value_number = Some 100, quantity = 4294967296,
                      names = [''Fund B'', ''Fund A''], value' = Some 2147483648.5,
                      country = Some ''CH'', currency = Some ''CHF''\<rparr>"

section \<open>tables.py: the value parsers\<close>

subsection \<open>The built-in int()\<close>

text \<open>
  \<open>int(text)\<close> on a string, in base 10: the text may be surrounded by whitespace, may
  start with one sign, and is otherwise a run of digits in which single underscores may
  stand between two digits. Anything else raises \<open>ValueError\<close> (the message of the
  model leaves out the quoted text). Below code point 256 the whitespace that \<open>int\<close>
  skips is tab, line feed, vertical tab, form feed, carriage return, space, \<open>0x85\<close>
  and \<open>0xA0\<close>, and the decimal digits are \<open>0\<close> to \<open>9\<close>. The interpreter's limit on
  the number of digits of a literal is not modelled.

  \<open>scan_digits\<close> reads the digits from the left; its flag says that the character
  before is a digit, which is when an underscore or the end may follow.
\<close>

definition int_space :: "char \<Rightarrow> bool" where
  "int_space c =
     (c \<in> set [CHR 0x09, CHR 0x0A, CHR 0x0B, CHR 0x0C, CHR 0x0D, CHR 0x20, CHR 0x85, CHR 0xA0])"

definition int_strip :: "string \<Rightarrow> string" where
  "int_strip s = rev (dropWhile int_space (rev (dropWhile int_space s)))"

definition digit_val :: "char \<Rightarrow> nat" where
  "digit_val c = of_char c - 48"

fun scan_digits :: "bool \<Rightarrow> nat \<Rightarrow> string \<Rightarrow> nat option" where
  "scan_digits after_digit acc [] = (if after_digit then Some acc else None)"
| "scan_digits after_digit acc (c # cs) =
     (if is_digit c then scan_digits True (10 * acc + digit_val c) cs
      else if c = CHR ''_'' \<and> after_digit then scan_digits False acc cs
      else None)"

definition is_sign :: "char \<Rightarrow> bool" where
  "is_sign c = (c = CHR ''+'' \<or> c = CHR ''-'')"

definition unsigned :: "string \<Rightarrow> string" where
  "unsigned t = (case t of [] \<Rightarrow> [] | c # r \<Rightarrow> if is_sign c then r else t)"

definition invalid_literal :: error where
  "invalid_literal = ValueError ''invalid literal for int() with base 10''"

definition py_int :: "string \<Rightarrow> error + int" where
  "py_int text =
     (let t = int_strip text in
      case scan_digits False 0 (unsigned t) of
        None \<Rightarrow> Inl invalid_literal
      | Some n \<Rightarrow> Inr (if take 1 t = ''-'' then - int n else int n))"

subsection \<open>Parser.value and IntParser.value\<close>

text \<open>
  \<open>Parser.value\<close> returns the text. \<open>IntParser.value\<close> first removes thousand
  separators with
  \<open>re.sub(fr"(?<=\d)[{self.thousand_sep}](?=\d{{3}})", "", text)\<close>
  when a separator is configured, then calls \<open>int\<close>.

  The separator of the model is one character, or none (\<open>None\<close> and the empty string
  are both falsy). The source puts the separator between the brackets of a character
  class: a single character stands for itself there, except \<open>^\<close> and the backslash,
  with which the pattern does not compile and \<open>re.sub\<close> raises \<open>re.error\<close>.

  A match is one separator character with a digit before it and three digits after it,
  both read in the text as given: \<open>sub_sep\<close> scans the text from the left, its flag
  saying that the character before is a digit, and drops each match.
\<close>

definition Parser_value :: "string \<Rightarrow> error + string" where
  "Parser_value text = Inr text"

definition three_digits :: "string \<Rightarrow> bool" where
  "three_digits cs =
     (case cs of a # b # c # _ \<Rightarrow> is_digit a \<and> is_digit b \<and> is_digit c | _ \<Rightarrow> False)"

fun sub_sep :: "char \<Rightarrow> bool \<Rightarrow> string \<Rightarrow> string" where
  "sub_sep sep after_digit [] = []"
| "sub_sep sep after_digit (c # cs) =
     (if c = sep \<and> after_digit \<and> three_digits cs then sub_sep sep (is_digit c) cs
      else c # sub_sep sep (is_digit c) cs)"

definition sub_thousand :: "char \<Rightarrow> string \<Rightarrow> string" where
  "sub_thousand sep text = sub_sep sep False text"

definition IntParser_value :: "char option \<Rightarrow> string \<Rightarrow> error + int" where
  "IntParser_value thousand_sep text =
     (case thousand_sep of
        None \<Rightarrow> py_int text
      | Some sep \<Rightarrow>
          if sep = CHR ''^'' \<or> sep = CHR 0x5C then Inl ReError
          else py_int (sub_thousand sep text))"

subsection \<open>Vocabulary of the parser properties\<close>

text \<open>
  \<open>removable sep s i\<close>: position \<open>i\<close> of \<open>s\<close> holds the separator, the character
  before it is a digit and the three characters after it are digits.
  \<open>exactly_three_follow s i\<close> is the wording of the specification: three digits follow
  position \<open>i\<close> and no fourth one.
  \<open>signed_digits t\<close> is the specification's literal: an optional sign, then digits only.
  \<open>int_literal t\<close> is the literal that \<open>int\<close> accepts once the whitespace is stripped:
  an optional sign, then digits and underscores that start and end with a digit and have
  no two underscores in a row.
\<close>

definition removable :: "char \<Rightarrow> string \<Rightarrow> nat \<Rightarrow> bool" where
  "removable sep s i =
     (i < length s \<and> s ! i = sep \<and> 0 < i \<and> is_digit (s ! (i - 1)) \<and> i + 3 < length s
      \<and> is_digit (s ! (i + 1)) \<and> is_digit (s ! (i + 2)) \<and> is_digit (s ! (i + 3)))"

definition exactly_three_follow :: "string \<Rightarrow> nat \<Rightarrow> bool" where
  "exactly_three_follow s i =
     (i + 3 < length s
      \<and> is_digit (s ! (i + 1)) \<and> is_digit (s ! (i + 2)) \<and> is_digit (s ! (i + 3))
      \<and> (i + 4 < length s \<longrightarrow> \<not> is_digit (s ! (i + 4))))"

definition signed_digits :: "string \<Rightarrow> bool" where
  "signed_digits t = (unsigned t \<noteq> [] \<and> list_all is_digit (unsigned t))"

definition no_double_underscore :: "string \<Rightarrow> bool" where
  "no_double_underscore body =
     (\<forall>i. Suc i < length body \<longrightarrow> \<not> (body ! i = CHR ''_'' \<and> body ! Suc i = CHR ''_''))"

definition digit_groups :: "string \<Rightarrow> bool" where
  "digit_groups body =
     (body \<noteq> [] \<and> (\<forall>c\<in>set body. is_digit c \<or> c = CHR ''_'')
      \<and> is_digit (hd body) \<and> is_digit (last body) \<and> no_double_underscore body)"

definition int_literal :: "string \<Rightarrow> bool" where
  "int_literal t = digit_groups (unsigned t)"

text \<open>
  \<open>removable_from\<close> is \<open>removable\<close> for a scan that starts inside a text: its flag
  stands for the character before position \<open>0\<close>.
\<close>

definition removable_from :: "char \<Rightarrow> bool \<Rightarrow> string \<Rightarrow> nat \<Rightarrow> bool" where
  "removable_from sep after_digit s i =
     (i < length s \<and> s ! i = sep \<and> (if i = 0 then after_digit else is_digit (s ! (i - 1)))
      \<and> three_digits (drop (Suc i) s))"

section \<open>tables.py: the Table\<close>

subsection \<open>Dictionaries and parser objects\<close>

text \<open>
  A \<open>dict\<close> is an association list in insertion order: \<open>dict_set\<close> is \<open>d[k] = v\<close>
  (a known key keeps its place), \<open>map_of\<close> is the lookup, \<open>k in d\<close> is
  \<open>k \<in> set (map fst d)\<close>, and a comprehension inserts its items from the left.

  The cells of an iterated row are Python values of three kinds. A parser object is
  known to the table by its method \<open>value\<close> alone, a function from the text to a value
  or an exception: \<open>Parser\<close> is the object \<open>Parser()\<close> and \<open>IntParser sep\<close> the
  object \<open>IntParser(thousand_separator=sep)\<close>. \<open>FloatParser\<close> objects, whose
  \<open>float()\<close> is not modelled, and any other object with a method \<open>value\<close> are
  functions of the same type.
\<close>

fun dict_set :: "('k \<times> 'v) list \<Rightarrow> 'k \<Rightarrow> 'v \<Rightarrow> ('k \<times> 'v) list" where
  "dict_set [] k v = [(k, v)]"
| "dict_set ((k', v') # d) k v =
     (if k' = k then (k, v) # d else (k', v') # dict_set d k v)"

datatype pyval = VStr string | VInt int | VFloat real

type_synonym parser = "string \<Rightarrow> error + pyval"

definition Parser :: parser where
  "Parser = (\<lambda>text. case Parser_value text of Inl e \<Rightarrow> Inl e | Inr s \<Rightarrow> Inr (VStr s))"

definition IntParser :: "char option \<Rightarrow> parser" where
  "IntParser thousand_sep =
     (\<lambda>text. case IntParser_value thousand_sep text of Inl e \<Rightarrow> Inl e | Inr n \<Rightarrow> Inr (VInt n))"

subsection \<open>TableSpec and Table\<close>

text \<open>
  \<open>TableSpec\<close>: the dict \<open>columns\<close> from labels to column names, and the optional
  list \<open>drop\<close>, here \<open>drop_columns\<close>.

  \<open>Table\<close>: the fields \<open>_header\<close>, \<open>_content\<close> and \<open>_n_row\<close> are
  \<open>header_raw\<close>, \<open>content\<close> and \<open>n_row\<close>. \<open>selected\<close> maps labels to column
  indexes and \<open>parsers\<close> maps column indexes to parser objects, as the class declares
  them. (The constructor stores \<open>dict(enumerate(self._header))\<close> in \<open>selected\<close>, a
  dict whose keys are numbers: no label is a key of it, and the states with labels in
  \<open>selected\<close> are those that a \<open>select\<close> has produced.)
\<close>

record TableSpec =
  columns :: "(string \<times> string) list"
  drop_columns :: "string list option"

record Table =
  header_raw :: "string list"
  content :: "string list list"
  selected :: "(string \<times> nat) list"
  parsers :: "(nat \<times> parser) list"
  n_row :: nat

subsection \<open>Table.select\<close>

text \<open>
  \<open>index\<close> is \<open>list.index\<close>, which raises \<open>ValueError\<close> for a missing element
  (\<open>None\<close> here). \<open>select_columns\<close> is the comprehension
  \<open>{label: self._header.index(column) for label, column in spec.columns.items()}\<close>,
  and \<open>identity_parsers\<close> is
  \<open>{column: Parser() for column in self.selected.values()}\<close>. Both fields are assigned
  inside the \<open>try\<close>; when the first comprehension raises, nothing is assigned and the
  method returns \<open>False\<close>.
\<close>

fun index :: "'a list \<Rightarrow> 'a \<Rightarrow> nat option" where
  "index [] x = None"
| "index (y # ys) x = (if y = x then Some 0 else map_option Suc (index ys x))"

fun select_columns ::
  "string list \<Rightarrow> (string \<times> string) list \<Rightarrow> (string \<times> nat) list
     \<Rightarrow> (string \<times> nat) list option" where
  "select_columns h [] acc = Some acc"
| "select_columns h ((label, column) # rest) acc =
     (case index h column of
        None \<Rightarrow> None
      | Some i \<Rightarrow> select_columns h rest (dict_set acc label i))"

fun identity_parsers :: "nat list \<Rightarrow> (nat \<times> parser) list \<Rightarrow> (nat \<times> parser) list" where
  "identity_parsers [] acc = acc"
| "identity_parsers (column # rest) acc = identity_parsers rest (dict_set acc column Parser)"

definition select :: "TableSpec \<Rightarrow> Table \<Rightarrow> bool \<times> Table" where
  "select spec t =
     (case select_columns (header_raw t) (columns spec) [] of
        None \<Rightarrow> (False, t)
      | Some sel \<Rightarrow>
          (case drop_columns spec of
             None \<Rightarrow> True
           | Some d \<Rightarrow> list_all (\<lambda>column. column \<in> set (header_raw t)) d,
           t\<lparr>selected := sel, parsers := identity_parsers (map snd sel) []\<rparr>))"

subsection \<open>Table.parse_with\<close>

text \<open>
  Without \<open>strict\<close> the labels that are not selected are filtered out first. With
  \<open>strict\<close> a label that is not selected makes the method return \<open>False\<close> before the
  loop that assigns the parsers. In the loop every label is selected, so
  \<open>self.selected[label]\<close> is defined.
\<close>

fun assign_parsers ::
  "(string \<times> nat) list \<Rightarrow> (string \<times> parser) list \<Rightarrow> (nat \<times> parser) list
     \<Rightarrow> (nat \<times> parser) list" where
  "assign_parsers sel [] ps = ps"
| "assign_parsers sel ((label, p) # rest) ps =
     assign_parsers sel rest (dict_set ps (the (map_of sel label)) p)"

definition parse_with :: "(string \<times> parser) list \<Rightarrow> bool \<Rightarrow> Table \<Rightarrow> bool \<times> Table" where
  "parse_with new_parsers strict t =
     (let given = (if \<not> strict
                   then filter (\<lambda>(label, p). label \<in> set (map fst (selected t))) new_parsers
                   else new_parsers)
      in if strict \<and> list_ex (\<lambda>(label, p). label \<notin> set (map fst (selected t))) given
         then (False, t)
         else (True, t\<lparr>parsers := assign_parsers (selected t) given (parsers t)\<rparr>))"

subsection \<open>Iteration\<close>








subsection \<open>Vocabulary of the iteration properties\<close>

text \<open>
  \<open>cell t row i\<close> is what the parser of column \<open>i\<close> makes of the row's cell, when the
  column has a parser and the row has the cell. A row is \<open>good_row\<close> when every selected
  cell parses, and \<open>malformed_row\<close> when every selected cell parses or raises
  \<open>ValueError\<close> and at least one raises it. A row is \<open>raising_row\<close> with the
  exception \<open>e\<close> when the parser of one selected cell raises \<open>e\<close> and the selected
  cells before it parse. \<open>is_record t row d\<close>: the record \<open>d\<close> has the selected
  labels, in their order, each with the parsed value of its cell.
\<close>

definition cell :: "Table \<Rightarrow> string list \<Rightarrow> nat \<Rightarrow> (error + pyval) option" where
  "cell t row i =
     (case map_of (parsers t) i of
        None \<Rightarrow> None
      | Some p \<Rightarrow> if length row \<le> i then None else Some (p (row ! i)))"

definition good_row :: "Table \<Rightarrow> string list \<Rightarrow> bool" where
  "good_row t row = (\<forall>(label, i)\<in>set (selected t). \<exists>v. cell t row i = Some (Inr v))"

definition malformed_row :: "Table \<Rightarrow> string list \<Rightarrow> bool" where
  "malformed_row t row =
     ((\<forall>(label, i)\<in>set (selected t).
          (\<exists>v. cell t row i = Some (Inr v)) \<or> (\<exists>m. cell t row i = Some (Inl (ValueError m))))
      \<and> (\<exists>(label, i)\<in>set (selected t). \<exists>m. cell t row i = Some (Inl (ValueError m))))"

definition raising_row :: "Table \<Rightarrow> string list \<Rightarrow> error \<Rightarrow> bool" where
  "raising_row t row e =
     (\<exists>pre label i post. selected t = pre @ (label, i) # post
        \<and> list_all (\<lambda>(l, j). \<exists>v. cell t row j = Some (Inr v)) pre
        \<and> cell t row i = Some (Inl e))"


text \<open>
  A table \<open>matches\<close> a specification when its header has every column that the
  specification maps and every column that it drops.
\<close>

definition matches :: "TableSpec \<Rightarrow> Table \<Rightarrow> bool" where
  "matches spec t =
     ((\<forall>(label, column)\<in>set (columns spec). column \<in> set (header_raw t))
      \<and> (case drop_columns spec of
           None \<Rightarrow> True
         | Some d \<Rightarrow> \<forall>column\<in>set d. column \<in> set (header_raw t)))"

text \<open>
  A table in the manner of the repository's tests: three columns, a row whose numeric
  identifier does not parse, and a row that does. \<open>demo_selected\<close> is the table after
  \<open>select\<close>, \<open>demo_parsed\<close> after a strict \<open>parse_with\<close> that reads the identifier
  as an integer with the thousand separator \<open>,\<close>. The fields \<open>selected\<close> and
  \<open>parsers\<close> of \<open>demo_table\<close> are empty; \<open>select\<close> overwrites both.
\<close>

definition demo_spec :: TableSpec where
  "demo_spec = \<lparr>columns = [(''name'', ''Full Name''), (''id'', ''Numeric Id''), (''A'', ''Amount'')],
                 drop_columns = None\<rparr>"

definition demo_table :: Table where
  "demo_table = \<lparr>header_raw = [''Full Name'', ''Numeric Id'', ''Amount''],
                  content = [[''Foo'', ''X'', ''5''], [''Bar'', ''1,100'', ''123'']],
                  selected = [], parsers = [], n_row = 0\<rparr>"

definition demo_selected :: Table where
  "demo_selected = snd (select demo_spec demo_table)"

definition demo_parsed :: Table where
  "demo_parsed = snd (parse_with [(''id'', IntParser (Some CHR '',''))] True demo_selected)"






section \<open>Properties of the ISIN pattern and of the constructor\<close>

lemma isin_try_Some:
  "isin_try i s = Some g \<longleftrightarrow>
     (\<exists>j\<le>i. isin_at s j \<and> g = isin_groups s j \<and> (\<forall>k. j < k \<and> k \<le> i \<longrightarrow> \<not> isin_at s k))"
proof (induction i)
  case 0
  show ?case by auto
next
  case (Suc i)
  show ?case
  proof (cases "isin_at s (Suc i)")
    case True
    have "(\<exists>j\<le>Suc i. isin_at s j \<and> g = isin_groups s j \<and> (\<forall>k. j < k \<and> k \<le> Suc i \<longrightarrow> \<not> isin_at s k))
          \<longleftrightarrow> g = isin_groups s (Suc i)"
      using True by (metis le_refl not_less_eq_eq not_less le_neq_implies_less)
    with True show ?thesis by auto
  next
    case False
    have "(\<exists>j\<le>Suc i. isin_at s j \<and> g = isin_groups s j \<and> (\<forall>k. j < k \<and> k \<le> Suc i \<longrightarrow> \<not> isin_at s k))
          \<longleftrightarrow> (\<exists>j\<le>i. isin_at s j \<and> g = isin_groups s j \<and> (\<forall>k. j < k \<and> k \<le> i \<longrightarrow> \<not> isin_at s k))"
      using False by (metis le_Suc_eq)
    with False Suc.IH show ?thesis by simp
  qed
qed

lemma isin_try_None: "isin_try i s = None \<longleftrightarrow> (\<forall>j\<le>i. \<not> isin_at s j)"
  by (induction i) (auto simp: le_Suc_eq)

lemma isin_shape_length: "isin_shape c \<Longrightarrow> length c = 12"
  by (simp add: isin_shape_def)

lemma upper_not_newline: "is_upper x \<or> is_digit x \<Longrightarrow> x \<noteq> newline"
  by (auto simp: is_upper_def is_digit_def newline_def)

lemma isin_shape_no_newline: "isin_shape c \<Longrightarrow> newline \<notin> set c"
proof
  assume sh: "isin_shape c" and nl: "newline \<in> set c"
  have "c = take 2 c @ drop 2 c" by simp
  then have "newline \<in> set (take 2 c) \<or> newline \<in> set (drop 2 c)"
    using nl by (metis Un_iff set_append)
  then show False
    using sh upper_not_newline by (auto simp: isin_shape_def list_all_iff)
qed

lemma isin_at_bound: "isin_at s j \<Longrightarrow> j + 12 \<le> length s"
  by (auto simp: isin_at_def dest!: isin_shape_length)

lemma isin_match_canonical:
  assumes "isin_shape c"
  shows "isin_match c = Some ([], c, [])"
proof -
  have len: "length c = 12" using assms by (rule isin_shape_length)
  have at0: "isin_at c 0"
    using assms len by (simp add: isin_at_def dollar_ok_def)
  have others: "\<forall>k. 0 < k \<and> k \<le> i \<longrightarrow> \<not> isin_at c k" for i
    using len by (auto dest!: isin_at_bound)
  have "isin_try i c = Some (isin_groups c 0)" for i
    unfolding isin_try_Some using at0 others by blast
  then show ?thesis
    using len by (simp add: isin_match_def isin_groups_def)
qed

lemma Fund_init_checked_cases:
  "Fund_init s vn q nm v co cu True = Inr (f, w) \<Longrightarrow>
     \<exists>pre post. isin_match s = Some (pre, isin f, post)"
  by (auto simp: Fund_init_def split: option.splits name_arg.splits prod.splits if_splits)

lemma isin_match_shape: "isin_match s = Some (pre, code, post) \<Longrightarrow> isin_shape code"
  by (auto simp: isin_match_def isin_try_Some isin_at_def isin_groups_def)

lemma isin_match_substring:
  "isin_match s = Some (pre, code, post) \<Longrightarrow> \<exists>rest. s = pre @ code @ rest"
proof -
  assume "isin_match s = Some (pre, code, post)"
  then obtain j where "pre = take j s" "code = take 12 (drop j s)"
    by (auto simp: isin_match_def isin_try_Some isin_groups_def)
  then have "s = pre @ code @ drop 12 (drop j s)" by (metis append_take_drop_id)
  then show ?thesis by blast
qed

text \<open>
  C7: a fund constructed with identity checking enabled stores an identity code of the
  canonical shape, two uppercase letters followed by ten uppercase letters or digits;
  construction raises when the input has no substring of that shape. The input
  \<open>"Prefix CH0012345678 Suffix"\<close> gives the code \<open>CH0012345678\<close> and logs the warning
  about the extra characters; the input \<open>"short123"\<close> raises.
\<close>

theorem Fund_init_isin_canonical:
  "(\<forall>f w. Fund_init s vn q nm v co cu True = Inr (f, w) \<longrightarrow> isin_shape (isin f))
   \<and> ((\<nexists>pre code rest. s = pre @ code @ rest \<and> isin_shape code) \<longrightarrow>
        Fund_init s vn q nm v co cu True = Inl (TypeError (''Invalid ISIN: '' @ s)))
   \<and> Fund_init ''Prefix CH0012345678 Suffix'' vn q NameNone v co cu True =
        Inr (\<lparr>isin = ''CH0012345678'', value_number = vn, quantity = q, names = [],
               value' = v, country = co, currency = cu\<rparr>,
             [extra_warning ''Prefix CH0012345678 Suffix'' ''CH0012345678''])
   \<and> Fund_init ''short123'' vn q nm v co cu True = Inl (TypeError ''Invalid ISIN: short123'')"
proof (intro conjI allI impI)
  fix f w
  assume "Fund_init s vn q nm v co cu True = Inr (f, w)"
  then show "isin_shape (isin f)"
    using Fund_init_checked_cases isin_match_shape by blast
next
  assume none: "\<nexists>pre code rest. s = pre @ code @ rest \<and> isin_shape code"
  have "isin_match s = None"
  proof (cases "isin_match s")
    case None
    then show ?thesis .
  next
    case (Some g)
    obtain pre code post where "g = (pre, code, post)" by (cases g) auto
    with Some none isin_match_shape[of s pre code post] isin_match_substring[of s pre code post] show ?thesis by blast
  qed
  then show "Fund_init s vn q nm v co cu True = Inl (TypeError (''Invalid ISIN: '' @ s))"
    by (simp add: Fund_init_def)
next
  have "isin_match ''Prefix CH0012345678 Suffix'' = Some (''Prefix '', ''CH0012345678'', '' Suffix'')"
    by code_simp
  then show "Fund_init ''Prefix CH0012345678 Suffix'' vn q NameNone v co cu True =
        Inr (\<lparr>isin = ''CH0012345678'', value_number = vn, quantity = q, names = [],
               value' = v, country = co, currency = cu\<rparr>,
             [extra_warning ''Prefix CH0012345678 Suffix'' ''CH0012345678''])"
    by (simp add: Fund_init_def)
next
  have "isin_match ''short123'' = None" by code_simp
  then show "Fund_init ''short123'' vn q nm v co cu True = Inl (TypeError ''Invalid ISIN: short123'')"
    by (simp add: Fund_init_def)
qed

theorem Fund_init_isin_canonical_witness:
  "isin_shape ''IT1234567890''
   \<and> Fund_init ''x IT1234567890'' None 0 NameNone None None None True =
       Inr (\<lparr>isin = ''IT1234567890'', value_number = None, quantity = 0, names = [],
              value' = None, country = None, currency = None\<rparr>,
            [extra_warning ''x IT1234567890'' ''IT1234567890''])
   \<and> (\<nexists>pre code rest. ''ab'' = pre @ code @ rest \<and> isin_shape code)
   \<and> Fund_init ''ab'' None 0 NameNone None None None True = Inl (TypeError ''Invalid ISIN: ab'')"
proof -
  have m: "isin_match ''x IT1234567890'' = Some (''x '', ''IT1234567890'', [])"
    by code_simp
  have built: "Fund_init ''x IT1234567890'' None 0 NameNone None None None True =
       Inr (\<lparr>isin = ''IT1234567890'', value_number = None, quantity = 0, names = [],
              value' = None, country = None, currency = None\<rparr>,
            [extra_warning ''x IT1234567890'' ''IT1234567890''])"
    using m by (simp add: Fund_init_def)
  have short: "\<nexists>pre code rest. ''ab'' = pre @ code @ rest \<and> isin_shape code"
  proof
    assume "\<exists>pre code rest. ''ab'' = pre @ code @ rest \<and> isin_shape code"
    then obtain pre code rest where e: "''ab'' = pre @ code @ rest" and "isin_shape code"
      by blast
    then have "length code = 12" by (simp add: isin_shape_def)
    moreover have "length ''ab'' = length pre + length code + length rest"
      by (subst e) simp
    ultimately show False by simp
  qed
  have shape: "isin_shape ''IT1234567890''"
    using Fund_init_isin_canonical [of "''x IT1234567890''" None 0 NameNone None None None]
      built by fastforce
  have fails: "Fund_init ''ab'' None 0 NameNone None None None True = Inl (TypeError ''Invalid ISIN: ab'')"
    using Fund_init_isin_canonical [of "''ab''" None 0 NameNone None None None] short
    by simp
  show ?thesis using shape built short fails by blast
qed

section \<open>The right-most identity code\<close>

lemma dollar_ok_last_newline:
  assumes "newline \<notin> set (butlast r)"
  shows "dollar_ok r"
proof (cases r rule: rev_cases)
  case Nil
  then show ?thesis by (simp add: dollar_ok_def)
next
  case (snoc xs x)
  with assms have "newline \<notin> set xs" by simp
  then have "dropWhile (\<lambda>c. c \<noteq> newline) (xs @ [x]) = dropWhile (\<lambda>c. c \<noteq> newline) [x]"
    by (intro dropWhile_append2) auto
  with snoc show ?thesis by (simp add: dollar_ok_def)
qed

lemma dollar_ok_suffix:
  assumes "newline \<notin> set (butlast s)"
  shows "dollar_ok (drop n s)"
proof -
  have "newline \<notin> set (butlast (drop n s))"
    using assms by (metis butlast_drop in_set_dropD)
  then show ?thesis by (rule dollar_ok_last_newline)
qed

lemma takeWhile_covers_butlast:
  assumes "newline \<notin> set (butlast s)"
  shows "length s - 1 \<le> length (takeWhile (\<lambda>c. c \<noteq> newline) s)"
proof (cases "s = []")
  case True
  then show ?thesis by simp
next
  case False
  have "takeWhile (\<lambda>c. c \<noteq> newline) (butlast s @ [last s])
        = butlast s @ takeWhile (\<lambda>c. c \<noteq> newline) [last s]"
    using assms by (intro takeWhile_append2) auto
  with False have "length (butlast s) \<le> length (takeWhile (\<lambda>c. c \<noteq> newline) s)"
    by (metis append_butlast_last_id le_add1 length_append)
  then show ?thesis by simp
qed

lemma isin_match_rightmost:
  assumes nl: "newline \<notin> set (butlast s)"
    and occ: "isin_shape (take 12 (drop i s))"
  shows "\<exists>j. isin_match s
               = Some (take j s, take 12 (drop j s),
                       takeWhile (\<lambda>c. c \<noteq> newline) (drop (j + 12) s))
             \<and> isin_shape (take 12 (drop j s))
             \<and> (\<forall>k. isin_shape (take 12 (drop k s)) \<longrightarrow> k \<le> j)"
proof -
  let ?n = "length (takeWhile (\<lambda>c. c \<noteq> newline) s)"
  have at: "isin_at s k \<longleftrightarrow> isin_shape (take 12 (drop k s))" for k
    using nl by (simp add: isin_at_def dollar_ok_suffix)
  have bound: "k \<le> ?n" if "isin_shape (take 12 (drop k s))" for k
  proof -
    have "k + 12 \<le> length s" using that at isin_at_bound by blast
    then show ?thesis using takeWhile_covers_butlast [OF nl] by linarith
  qed
  have "isin_try ?n s \<noteq> None"
    using occ bound at by (auto simp: isin_try_None)
  then obtain g where g: "isin_try ?n s = Some g" by blast
  then obtain j where j: "j \<le> ?n" "isin_at s j" "g = isin_groups s j"
      "\<forall>k. j < k \<and> k \<le> ?n \<longrightarrow> \<not> isin_at s k"
    unfolding isin_try_Some by blast
  have "\<forall>k. isin_shape (take 12 (drop k s)) \<longrightarrow> k \<le> j"
    using j(4) at bound by (meson not_le_imp_less)
  with g j at show ?thesis
    by (auto simp: isin_match_def isin_groups_def)
qed

lemma isin_match_inner_newline:
  assumes "newline \<in> set (butlast s)"
  shows "isin_match s = None"
proof -
  from assms obtain a b' where bl: "butlast s = a @ newline # b'" and a: "newline \<notin> set a"
    by (meson split_list_first)
  have "s \<noteq> []" using assms by auto
  then have "s = butlast s @ [last s]" by simp
  with bl obtain b where s: "s = a @ newline # b" and b: "b \<noteq> []"
    by (metis append_Cons append_assoc snoc_eq_iff_butlast)
  have n: "length (takeWhile (\<lambda>c. c \<noteq> newline) s) = length a"
  proof -
    have "takeWhile (\<lambda>c. c \<noteq> newline) (a @ newline # b)
          = a @ takeWhile (\<lambda>c. c \<noteq> newline) (newline # b)"
      using a by (intro takeWhile_append2) auto
    then show ?thesis by (simp add: s)
  qed
  have "\<not> isin_at s j" if "j \<le> length a" for j
  proof
    assume at: "isin_at s j"
    then have sh: "isin_shape (take 12 (drop j s))" by (simp add: isin_at_def)
    have far: "j + 12 \<le> length a"
    proof (rule ccontr)
      assume "\<not> j + 12 \<le> length a"
      then have "length a - j < 12" using that by linarith
      moreover have "j + 12 \<le> length s" using at by (rule isin_at_bound)
      ultimately have nth: "take 12 (drop j s) ! (length a - j) = s ! length a"
        and len: "length a - j < length (take 12 (drop j s))"
        using that by simp_all
      have "s ! length a = newline" by (simp add: s)
      with nth have "take 12 (drop j s) ! (length a - j) = newline" by simp
      with len have "newline \<in> set (take 12 (drop j s))"
        using nth_mem by metis
      then show False using isin_shape_no_newline [OF sh] by simp
    qed
    then have "drop (j + 12) s = drop (j + 12) a @ newline # b" by (simp add: s)
    moreover have "newline \<notin> set (drop (j + 12) a)" using a by (meson in_set_dropD)
    moreover have "dropWhile (\<lambda>c. c \<noteq> newline) (drop (j + 12) a @ newline # b)
                   = dropWhile (\<lambda>c. c \<noteq> newline) (newline # b)"
      using \<open>newline \<notin> set (drop (j + 12) a)\<close> by (intro dropWhile_append2) auto
    ultimately have "dropWhile (\<lambda>c. c \<noteq> newline) (drop (j + 12) s) = newline # b"
      by simp
    with at b show False by (simp add: isin_at_def dollar_ok_def)
  qed
  then show ?thesis by (simp add: isin_match_def n isin_try_None)
qed

text \<open>
  C10, as amended: for an identity input with no line break other than a final one, and
  with at least one substring of the canonical shape (in particular with several), the
  constructor with identity checking enabled succeeds and stores the right-most such
  substring: the one whose start index is the greatest. An input with a line break before
  its last character is rejected, since the dot of the pattern does not match a newline.
\<close>

theorem Fund_init_extracts_rightmost:
  "(newline \<notin> set (butlast s) \<and> nm \<noteq> NameOther \<and> isin_shape (take 12 (drop i s)) \<longrightarrow>
      (\<exists>f w j. Fund_init s vn q nm v co cu True = Inr (f, w)
               \<and> isin f = take 12 (drop j s) \<and> isin_shape (isin f)
               \<and> (\<forall>k. isin_shape (take 12 (drop k s)) \<longrightarrow> k \<le> j)))
   \<and> (newline \<in> set (butlast s) \<longrightarrow>
        Fund_init s vn q nm v co cu True = Inl (TypeError (''Invalid ISIN: '' @ s)))"
proof (intro conjI impI)
  assume h: "newline \<notin> set (butlast s) \<and> nm \<noteq> NameOther \<and> isin_shape (take 12 (drop i s))"
  then obtain j where j: "isin_match s
               = Some (take j s, take 12 (drop j s),
                       takeWhile (\<lambda>c. c \<noteq> newline) (drop (j + 12) s))"
      "isin_shape (take 12 (drop j s))"
      "\<forall>k. isin_shape (take 12 (drop k s)) \<longrightarrow> k \<le> j"
    using isin_match_rightmost by blast
  from h have "nm \<noteq> NameOther" by simp
  then obtain f w where "Fund_init s vn q nm v co cu True = Inr (f, w)"
      "isin f = take 12 (drop j s)"
    using j(1) by (cases nm) (simp_all add: Fund_init_def)
  with j show "\<exists>f w j. Fund_init s vn q nm v co cu True = Inr (f, w)
               \<and> isin f = take 12 (drop j s) \<and> isin_shape (isin f)
               \<and> (\<forall>k. isin_shape (take 12 (drop k s)) \<longrightarrow> k \<le> j)"
    by auto
next
  assume "newline \<in> set (butlast s)"
  then have "isin_match s = None" by (rule isin_match_inner_newline)
  then show "Fund_init s vn q nm v co cu True = Inl (TypeError (''Invalid ISIN: '' @ s))"
    by (simp add: Fund_init_def)
qed

theorem Fund_init_extracts_rightmost_witness:
  "newline \<notin> set (butlast ''CH0012345678 IT0012345678'')
   \<and> isin_shape (take 12 (drop 0 ''CH0012345678 IT0012345678''))
   \<and> (\<exists>f w j. Fund_init ''CH0012345678 IT0012345678'' None 0 NameNone None None None True
                  = Inr (f, w)
               \<and> isin f = take 12 (drop j ''CH0012345678 IT0012345678'')
               \<and> isin_shape (isin f)
               \<and> (\<forall>k. isin_shape (take 12 (drop k ''CH0012345678 IT0012345678''))
                      \<longrightarrow> k \<le> j))
   \<and> newline \<in> set (butlast (''CH0012345678'' @ [newline] @ ''x''))
   \<and> Fund_init (''CH0012345678'' @ [newline] @ ''x'') None 0 NameNone None None None True
       = Inl (TypeError (''Invalid ISIN: '' @ ''CH0012345678'' @ [newline] @ ''x''))"
proof -
  have a: "newline \<notin> set (butlast ''CH0012345678 IT0012345678'')"
    by (simp add: newline_def)
  have b: "isin_shape (take 12 (drop 0 ''CH0012345678 IT0012345678''))"
    by (simp add: isin_shape_def is_upper_def is_digit_def)
  have c: "newline \<in> set (butlast (''CH0012345678'' @ [newline] @ ''x''))"
    by simp
  show ?thesis
    using a b c
      Fund_init_extracts_rightmost [of "''CH0012345678 IT0012345678''" NameNone 0
        None 0 None None None]
      Fund_init_extracts_rightmost [of "''CH0012345678'' @ [newline] @ ''x''" NameNone 0
        None 0 None None None]
    by blast
qed

text \<open>
  C10 as stated fails on an input of two lines: it contains two substrings of the
  canonical shape, and the constructor raises instead of storing the second one.
\<close>

theorem Fund_init_two_lines_counterexample:
  "isin_shape ''CH0012345678'' \<and> isin_shape ''IT0012345678''
   \<and> Fund_init (''CH0012345678'' @ [newline] @ ''IT0012345678'') None 0 NameNone None None None
        True
      = Inl (TypeError (''Invalid ISIN: '' @ ''CH0012345678'' @ [newline] @ ''IT0012345678''))"
proof -
  have "isin_match (''CH0012345678'' @ [newline] @ ''IT0012345678'') = None"
    by code_simp
  then show ?thesis
    by (simp add: Fund_init_def isin_shape_def is_upper_def is_digit_def)
qed

section \<open>Properties of the merge\<close>

lemma Fund_init_canonical:
  assumes "isin_shape c"
  shows "Fund_init c vn q (NameList ns) v co cu True =
           Inr (\<lparr>isin = c, value_number = vn, quantity = q, names = ns,
                  value' = v, country = co, currency = cu\<rparr>, [])"
  using isin_match_canonical [OF assms] by (simp add: Fund_init_def)

lemma Fund_init_fields:
  assumes "Fund_init c vn q (NameList ns) v co cu True = Inr (f, w)"
  shows "value_number f = vn \<and> quantity f = q \<and> names f = ns \<and> value' f = v
         \<and> country f = co \<and> currency f = cu
         \<and> (\<exists>pre post. isin_match c = Some (pre, isin f, post))"
  using assms by (auto simp: Fund_init_def split: option.splits prod.splits)

lemma py_or_agree:
  assumes "agree x y" "truthy_opt t x" "truthy_opt t y"
  shows "py_or t x y = py_or t y x"
  using assms by (auto simp: py_or_def agree_def truthy_opt_def split: option.splits)

lemma py_or_close:
  assumes "agree_close x y" "truthy_opt t x" "truthy_opt t y"
  shows "py_or t x y = py_or t y x
         \<or> (\<exists>u v. py_or t x y = Some u \<and> py_or t y x = Some v \<and> isclose u v)"
  using assms by (auto simp: py_or_def agree_close_def truthy_opt_def split: option.splits)

lemma py_or_one_sided:
  assumes "x = y \<or> x = None \<or> y = None" "truthy_opt t x" "truthy_opt t y"
  shows "py_or t x y = py_or t y x"
  using assms by (auto simp: py_or_def truthy_opt_def split: option.splits)

lemma Fund_add_no_value_clash:
  assumes "isin a = isin b" "isin_shape (isin a)"
    and "agree (value_number a) (value_number b)"
    and "agree (country a) (country b)" "agree (currency a) (currency b)"
    and "value' a = None \<or> value' b = None"
  shows "\<exists>r w. Fund_add a b = Inr (r, w)"
proof -
  have 1: "\<not> (value_number a \<noteq> None \<and> value_number b \<noteq> None \<and> value_number a \<noteq> value_number b)"
    using assms(3) by (auto simp: agree_def split: option.splits)
  have 2: "\<not> (country a \<noteq> None \<and> country b \<noteq> None \<and> country a \<noteq> country b)"
    using assms(4) by (auto simp: agree_def split: option.splits)
  have 3: "\<not> (currency a \<noteq> None \<and> currency b \<noteq> None \<and> currency a \<noteq> currency b)"
    using assms(5) by (auto simp: agree_def split: option.splits)
  have 4: "\<not> (value' a \<noteq> None \<and> value' b \<noteq> None
               \<and> \<not> isclose (the (value' a)) (real_of_int (quantity b)))"
    using assms(6) by auto
  show ?thesis
    unfolding Fund_add_def using 1 2 3 4 assms(1) Fund_init_canonical [OF assms(2)]
    by simp
qed

lemma Fund_add_result:
  assumes "Fund_add a b = Inr (r, w)"
  shows "value_number r = py_or truthy_int (value_number a) (value_number b)
         \<and> quantity r = quantity a + quantity b
         \<and> names r = names a @ names b
         \<and> value' r = py_or truthy_float (value' a) (value' b)
         \<and> country r = py_or truthy_str (country a) (country b)
         \<and> currency r = py_or truthy_str (currency a) (currency b)
         \<and> (\<exists>pre post. isin_match (isin a) = Some (pre, isin r, post))"
proof -
  from assms have "Fund_init (isin a)
             (py_or truthy_int (value_number a) (value_number b))
             (quantity a + quantity b)
             (NameList (names a @ names b))
             (py_or truthy_float (value' a) (value' b))
             (py_or truthy_str (country a) (country b))
             (py_or truthy_str (currency a) (currency b))
             True = Inr (r, w)"
    unfolding Fund_add_def by (simp split: if_splits)
  then show ?thesis by (rule Fund_init_fields)
qed

text \<open>
  C2, as amended: let \<open>a\<close> and \<open>b\<close> have the same canonical identity and no
  conflicting reconciled field (value-numbers, countries and currencies agree, monetary
  values agree up to \<open>isclose\<close>), every held field being truthy. When at most one of
  them holds a monetary value, \<open>a + b\<close> and \<open>b + a\<close> both succeed. Whenever both
  succeed, the results have equal identity, value-number, country and currency. Each
  merge keeps the monetary value of its left operand, and takes the one of its right
  operand when the left one holds none; so the two monetary values are equal when the two
  sides hold the same value or one holds none, and accepted by \<open>isclose\<close> otherwise.
  Both quantities are the sum of the two quantities, and the names are concatenated in
  opposite orders.
\<close>

theorem Fund_add_commutes:
  assumes same: "isin a = isin b" and canon: "isin_shape (isin a)"
    and vn: "agree (value_number a) (value_number b)"
    and va: "agree_close (value' a) (value' b)"
    and co: "agree (country a) (country b)"
    and cu: "agree (currency a) (currency b)"
    and ta: "held_truthy a" and tb: "held_truthy b"
  shows "(value' a = None \<or> value' b = None \<longrightarrow>
            (\<exists>r1 w1 r2 w2. Fund_add a b = Inr (r1, w1) \<and> Fund_add b a = Inr (r2, w2)))
         \<and> (\<forall>r1 w1 r2 w2. Fund_add a b = Inr (r1, w1) \<and> Fund_add b a = Inr (r2, w2) \<longrightarrow>
              isin r1 = isin r2 \<and> value_number r1 = value_number r2
              \<and> country r1 = country r2 \<and> currency r1 = currency r2
              \<and> (value' r1 = value' r2
                 \<or> (\<exists>x y. value' r1 = Some x \<and> value' r2 = Some y \<and> isclose x y))
              \<and> (value' a = value' b \<or> value' a = None \<or> value' b = None
                   \<longrightarrow> value' r1 = value' r2)
              \<and> (\<forall>x. value' a = Some x \<longrightarrow> value' r1 = Some x)
              \<and> (value' a = None \<longrightarrow> value' r1 = value' b)
              \<and> (\<forall>y. value' b = Some y \<longrightarrow> value' r2 = Some y)
              \<and> (value' b = None \<longrightarrow> value' r2 = value' a)
              \<and> quantity r1 = quantity a + quantity b \<and> quantity r2 = quantity r1
              \<and> names r1 = names a @ names b \<and> names r2 = names b @ names a)"
proof (intro conjI impI allI)
  assume one: "value' a = None \<or> value' b = None"
  have vn': "agree (value_number b) (value_number a)"
    and co': "agree (country b) (country a)" and cu': "agree (currency b) (currency a)"
    using vn co cu by (auto simp: agree_def split: option.splits)
  obtain r1 w1 where "Fund_add a b = Inr (r1, w1)"
    using Fund_add_no_value_clash [OF same canon vn co cu one] by blast
  moreover obtain r2 w2 where "Fund_add b a = Inr (r2, w2)"
    using Fund_add_no_value_clash [of b a] same canon vn' co' cu' one by auto
  ultimately show "\<exists>r1 w1 r2 w2. Fund_add a b = Inr (r1, w1) \<and> Fund_add b a = Inr (r2, w2)"
    by blast
next
  fix r1 w1 r2 w2
  assume both: "Fund_add a b = Inr (r1, w1) \<and> Fund_add b a = Inr (r2, w2)"
  note R1 = Fund_add_result [of a b r1 w1] and R2 = Fund_add_result [of b a r2 w2]
  have t: "truthy_opt truthy_int (value_number a)" "truthy_opt truthy_int (value_number b)"
    "truthy_opt truthy_float (value' a)" "truthy_opt truthy_float (value' b)"
    "truthy_opt truthy_str (country a)" "truthy_opt truthy_str (country b)"
    "truthy_opt truthy_str (currency a)" "truthy_opt truthy_str (currency b)"
    using ta tb by (simp_all add: held_truthy_def)
  show "isin r1 = isin r2" using both R1 R2 same by auto
  show "value_number r1 = value_number r2"
    using both R1 R2 py_or_agree [OF vn t(1,2)] by simp
  show "country r1 = country r2"
    using both R1 R2 py_or_agree [OF co t(5,6)] by simp
  show "currency r1 = currency r2"
    using both R1 R2 py_or_agree [OF cu t(7,8)] by simp
  show "value' r1 = value' r2
        \<or> (\<exists>x y. value' r1 = Some x \<and> value' r2 = Some y \<and> isclose x y)"
    using both R1 R2 py_or_close [OF va t(3,4)] by simp
  show "value' r1 = value' r2" if "value' a = value' b \<or> value' a = None \<or> value' b = None"
    using both R1 R2 py_or_one_sided [OF that t(3,4)] by simp
  show "value' r1 = Some x" if "value' a = Some x" for x
    using both R1 t(3) that by (simp add: py_or_def truthy_opt_def)
  show "value' r1 = value' b" if "value' a = None"
    using both R1 that by (simp add: py_or_def)
  show "value' r2 = Some y" if "value' b = Some y" for y
    using both R2 t(4) that by (simp add: py_or_def truthy_opt_def)
  show "value' r2 = value' a" if "value' b = None"
    using both R2 that by (simp add: py_or_def)
  show "quantity r1 = quantity a + quantity b" using both R1 by simp
  show "quantity r2 = quantity r1" using both R1 R2 by simp
  show "names r1 = names a @ names b" using both R1 by simp
  show "names r2 = names b @ names a" using both R2 by simp
qed

text \<open>The definitions that evaluate a match and a merge on concrete funds.\<close>

lemmas isin_eval =
  isin_match_def newline_def isin_at_def isin_groups_def isin_shape_def is_upper_def
  is_digit_def dollar_ok_def

lemmas merge_eval =
  Fund_add_def Fund_init_def py_or_def truthy_int_def truthy_float_def truthy_str_def
  isclose_def rel_tol_def abs_tol_def

theorem Fund_add_commutes_witness:
  "isin test_fund1 = isin test_fund2 \<and> isin_shape (isin test_fund1)
   \<and> agree (value_number test_fund1) (value_number test_fund2)
   \<and> agree_close (value' test_fund1) (value' test_fund2)
   \<and> agree (country test_fund1) (country test_fund2)
   \<and> agree (currency test_fund1) (currency test_fund2)
   \<and> held_truthy test_fund1 \<and> held_truthy test_fund2
   \<and> (value' test_fund1 = None \<or> value' test_fund2 = None)
   \<and> (\<exists>r1 w1 r2 w2. Fund_add test_fund1 test_fund2 = Inr (r1, w1)
          \<and> Fund_add test_fund2 test_fund1 = Inr (r2, w2)
          \<and> isin r1 = isin r2 \<and> value_number r1 = value_number r2
          \<and> country r1 = country r2 \<and> currency r1 = currency r2
          \<and> value' r1 = value' r2
          \<and> quantity r1 = 11 \<and> quantity r2 = 11
          \<and> names r1 = [''Test Fund'', ''Test Fund 2'']
          \<and> names r2 = [''Test Fund 2'', ''Test Fund''])
   \<and> isin close_fund1 = isin close_fund2 \<and> isin_shape (isin close_fund1)
   \<and> agree (value_number close_fund1) (value_number close_fund2)
   \<and> agree_close (value' close_fund1) (value' close_fund2)
   \<and> agree (country close_fund1) (country close_fund2)
   \<and> agree (currency close_fund1) (currency close_fund2)
   \<and> held_truthy close_fund1 \<and> held_truthy close_fund2
   \<and> Fund_add close_fund1 close_fund2 = Inr (close_merged12, [])
   \<and> Fund_add close_fund2 close_fund1 = Inr (close_merged21, [])
   \<and> isin close_merged12 = isin close_merged21
   \<and> value_number close_merged12 = value_number close_merged21
   \<and> country close_merged12 = country close_merged21
   \<and> currency close_merged12 = currency close_merged21
   \<and> value' close_merged12 = value' close_fund1
   \<and> value' close_merged21 = value' close_fund2
   \<and> value' close_merged12 = Some 2147483648
   \<and> value' close_merged21 = Some 2147483648.5
   \<and> isclose 2147483648 2147483648.5
   \<and> quantity close_merged12 = quantity close_merged21
   \<and> names close_merged12 = [''Fund A'', ''Fund B'']
   \<and> names close_merged21 = [''Fund B'', ''Fund A'']"
proof -
  have h: "isin test_fund1 = isin test_fund2" "isin_shape (isin test_fund1)"
    "agree (value_number test_fund1) (value_number test_fund2)"
    "agree_close (value' test_fund1) (value' test_fund2)"
    "agree (country test_fund1) (country test_fund2)"
    "agree (currency test_fund1) (currency test_fund2)"
    "held_truthy test_fund1" "held_truthy test_fund2"
    by (simp_all add: test_fund1_def test_fund2_def isin_shape_def is_upper_def is_digit_def
        agree_def agree_close_def held_truthy_def truthy_opt_def truthy_int_def)
  have one: "value' test_fund1 = None \<or> value' test_fund2 = None"
    by (simp add: test_fund1_def)
  have q: "quantity test_fund1 + quantity test_fund2 = 11"
    "names test_fund1 @ names test_fund2 = [''Test Fund'', ''Test Fund 2'']"
    "names test_fund2 @ names test_fund1 = [''Test Fund 2'', ''Test Fund'']"
    by (simp_all add: test_fund1_def test_fund2_def)
  have first: "\<exists>r1 w1 r2 w2. Fund_add test_fund1 test_fund2 = Inr (r1, w1)
          \<and> Fund_add test_fund2 test_fund1 = Inr (r2, w2)
          \<and> isin r1 = isin r2 \<and> value_number r1 = value_number r2
          \<and> country r1 = country r2 \<and> currency r1 = currency r2
          \<and> value' r1 = value' r2
          \<and> quantity r1 = 11 \<and> quantity r2 = 11
          \<and> names r1 = [''Test Fund'', ''Test Fund 2'']
          \<and> names r2 = [''Test Fund 2'', ''Test Fund'']"
  proof -
    from conjunct1 [OF Fund_add_commutes [OF h]] one
    obtain r1 w1 r2 w2 where both: "Fund_add test_fund1 test_fund2 = Inr (r1, w1)
        \<and> Fund_add test_fund2 test_fund1 = Inr (r2, w2)"
      by blast
    note k = conjunct2 [OF Fund_add_commutes [OF h], rule_format, OF both]
    have "isin r1 = isin r2 \<and> value_number r1 = value_number r2
          \<and> country r1 = country r2 \<and> currency r1 = currency r2
          \<and> value' r1 = value' r2
          \<and> quantity r1 = 11 \<and> quantity r2 = 11
          \<and> names r1 = [''Test Fund'', ''Test Fund 2'']
          \<and> names r2 = [''Test Fund 2'', ''Test Fund'']"
      using k one q by simp
    with both show ?thesis by blast
  qed
  have c: "isin close_fund1 = isin close_fund2" "isin_shape (isin close_fund1)"
    "agree (value_number close_fund1) (value_number close_fund2)"
    "agree_close (value' close_fund1) (value' close_fund2)"
    "agree (country close_fund1) (country close_fund2)"
    "agree (currency close_fund1) (currency close_fund2)"
    "held_truthy close_fund1" "held_truthy close_fund2"
    by (simp_all add: close_fund1_def close_fund2_def isin_shape_def is_upper_def is_digit_def
        agree_def agree_close_def held_truthy_def truthy_opt_def truthy_int_def
        truthy_float_def truthy_str_def isclose_def rel_tol_def abs_tol_def)
  have m: "isin_match ''CH0012345678'' = Some ([], ''CH0012345678'', [])"
    by (simp add: isin_eval)
  have m12: "Fund_add close_fund1 close_fund2 = Inr (close_merged12, [])"
    by (simp add: merge_eval m close_fund1_def close_fund2_def close_merged12_def)
  have m21: "Fund_add close_fund2 close_fund1 = Inr (close_merged21, [])"
    by (simp add: merge_eval m close_fund1_def close_fund2_def close_merged21_def)
  have v: "value' close_fund1 = Some 2147483648" "value' close_fund2 = Some 2147483648.5"
    by (simp_all add: close_fund1_def close_fund2_def)
  have n: "names close_fund1 @ names close_fund2 = [''Fund A'', ''Fund B'']"
    "names close_fund2 @ names close_fund1 = [''Fund B'', ''Fund A'']"
    by (simp_all add: close_fund1_def close_fund2_def)
  have cl: "isclose 2147483648 2147483648.5"
    by (simp add: isclose_def rel_tol_def abs_tol_def)
  have second: "isin close_merged12 = isin close_merged21
      \<and> value_number close_merged12 = value_number close_merged21
      \<and> country close_merged12 = country close_merged21
      \<and> currency close_merged12 = currency close_merged21
      \<and> value' close_merged12 = value' close_fund1
      \<and> value' close_merged21 = value' close_fund2
      \<and> quantity close_merged12 = quantity close_merged21
      \<and> names close_merged12 = [''Fund A'', ''Fund B'']
      \<and> names close_merged21 = [''Fund B'', ''Fund A'']"
  proof -
    have both: "Fund_add close_fund1 close_fund2 = Inr (close_merged12, [])
                \<and> Fund_add close_fund2 close_fund1 = Inr (close_merged21, [])"
      using m12 m21 by simp
    note k = conjunct2 [OF Fund_add_commutes [OF c], rule_format, OF both]
    show ?thesis using k v n by simp
  qed
  show ?thesis
    by (intro conjI h one first c m12 m21 v cl second [THEN conjunct1]
        second [THEN conjunct2, THEN conjunct1]
        second [THEN conjunct2, THEN conjunct2, THEN conjunct1]
        second [THEN conjunct2, THEN conjunct2, THEN conjunct2, THEN conjunct1])
      (use second v in simp_all)
qed

text \<open>
  C2 as stated fails on two funds whose monetary values \<open>1073741824.0\<close> and
  \<open>1073741824.5\<close> differ within the relative tolerance: no field conflicts, both merges
  succeed, and each result keeps the monetary value of its left operand.
\<close>

theorem Fund_add_close_values_counterexample:
  "isin_shape ''IT1234567890''
   \<and> isclose 1073741824 1073741824.5
   \<and> Fund_add
       \<lparr>isin = ''IT1234567890'', value_number = None, quantity = 1073741824, names = [],
         value' = Some 1073741824, country = None, currency = None\<rparr>
       \<lparr>isin = ''IT1234567890'', value_number = None, quantity = 1073741824, names = [],
         value' = Some 1073741824.5, country = None, currency = None\<rparr>
      = Inr (\<lparr>isin = ''IT1234567890'', value_number = None, quantity = 2147483648, names = [],
               value' = Some 1073741824, country = None, currency = None\<rparr>, [])
   \<and> Fund_add
       \<lparr>isin = ''IT1234567890'', value_number = None, quantity = 1073741824, names = [],
         value' = Some 1073741824.5, country = None, currency = None\<rparr>
       \<lparr>isin = ''IT1234567890'', value_number = None, quantity = 1073741824, names = [],
         value' = Some 1073741824, country = None, currency = None\<rparr>
      = Inr (\<lparr>isin = ''IT1234567890'', value_number = None, quantity = 2147483648, names = [],
               value' = Some 1073741824.5, country = None, currency = None\<rparr>, [])
   \<and> Some (1073741824 :: real) \<noteq> Some 1073741824.5"
proof -
  have m: "isin_match ''IT1234567890'' = Some ([], ''IT1234567890'', [])"
    by (simp add: isin_eval)
  show ?thesis
    by (simp add: merge_eval m) (simp add: isin_shape_def is_upper_def is_digit_def)
qed

text \<open>
  C1 on the code: two funds with the same identity and the same monetary value
  \<open>1000.0\<close>, with quantities \<open>10\<close> and \<open>20\<close>, do not merge, because the check
  compares \<open>self.value\<close> with \<open>other.quantity\<close>; and two funds whose monetary values
  \<open>20.0\<close> and \<open>30.0\<close> differ do merge when the right one has quantity \<open>20\<close>.
\<close>

theorem Fund_add_equal_values_rejected:
  "Fund_add
     \<lparr>isin = ''IT1234567890'', value_number = None, quantity = 10, names = [],
       value' = Some 1000, country = None, currency = None\<rparr>
     \<lparr>isin = ''IT1234567890'', value_number = None, quantity = 20, names = [],
       value' = Some 1000, country = None, currency = None\<rparr>
    = Inl (ValueError ''Cannot add funds with different quantities'')
   \<and> \<not> isclose 20 30
   \<and> Fund_add
       \<lparr>isin = ''IT1234567890'', value_number = None, quantity = 10, names = [],
         value' = Some 20, country = None, currency = None\<rparr>
       \<lparr>isin = ''IT1234567890'', value_number = None, quantity = 20, names = [],
         value' = Some 30, country = None, currency = None\<rparr>
      = Inr (\<lparr>isin = ''IT1234567890'', value_number = None, quantity = 30, names = [],
               value' = Some 20, country = None, currency = None\<rparr>, [])"
proof -
  have m: "isin_match ''IT1234567890'' = Some ([], ''IT1234567890'', [])"
    by (simp add: isin_eval)
  show ?thesis
    by (simp add: merge_eval m)
qed

text \<open>
  What the merge does with identities and messages: funds with different identity codes
  never merge, a conflict of value-numbers is reported as such, and the five messages of
  the method differ from one another.
\<close>

lemma Fund_add_identity_mismatch:
  "isin a \<noteq> isin b \<Longrightarrow> Fund_add a b = Inl (ValueError ''Cannot add funds with different ISINs'')"
  by (simp add: Fund_add_def)

lemma Fund_add_value_number_conflict:
  "isin a = isin b \<Longrightarrow> value_number a = Some x \<Longrightarrow> value_number b = Some y \<Longrightarrow> x \<noteq> y \<Longrightarrow>
     Fund_add a b = Inl (ValueError ''Cannot add funds with different value numbers'')"
  by (simp add: Fund_add_def)

lemma Fund_add_messages_distinct:
  "distinct [''Cannot add funds with different ISINs'',
             ''Cannot add funds with different value numbers'',
             ''Cannot add funds with different quantities'',
             ''Cannot add funds with different countries'',
             ''Cannot add funds with different currencies'']"
  by simp

text \<open>
  C5 on the code: two funds with the same identity that differ in the currency only
  (\<open>CHF\<close> against \<open>EUR\<close>), both holding the monetary value \<open>1000.0\<close> and the
  quantity \<open>10\<close>, fail with the message of the monetary-value check, not with the one
  that names the currencies.
\<close>

theorem Fund_add_currency_conflict_misreported:
  "Fund_add
     \<lparr>isin = ''CH0012345678'', value_number = None, quantity = 10, names = [],
       value' = Some 1000, country = None, currency = Some ''CHF''\<rparr>
     \<lparr>isin = ''CH0012345678'', value_number = None, quantity = 10, names = [],
       value' = Some 1000, country = None, currency = Some ''EUR''\<rparr>
    = Inl (ValueError ''Cannot add funds with different quantities'')"
  by (simp add: merge_eval)

text \<open>
  What the merge does with a field that the left fund holds: a truthy value is kept, a
  falsy one gives way to the field of the right fund.
\<close>

lemma Fund_add_keeps_truthy:
  assumes "Fund_add a b = Inr (r, w)"
  shows "(value_number a = Some n \<and> n \<noteq> 0 \<longrightarrow> value_number r = Some n)
         \<and> (value' a = Some x \<and> x \<noteq> 0 \<longrightarrow> value' r = Some x)
         \<and> (country a = Some c \<and> c \<noteq> [] \<longrightarrow> country r = Some c)
         \<and> (currency a = Some u \<and> u \<noteq> [] \<longrightarrow> currency r = Some u)
         \<and> (value_number a = None \<longrightarrow> value_number r = value_number b)
         \<and> (value' a = None \<longrightarrow> value' r = value' b)
         \<and> (country a = None \<longrightarrow> country r = country b)
         \<and> (currency a = None \<longrightarrow> currency r = currency b)"
  using Fund_add_result [OF assms]
  by (auto simp: py_or_def truthy_int_def truthy_float_def truthy_str_def)

text \<open>
  C6 on the code: the left fund holds the value-number \<open>0\<close>, the monetary value
  \<open>0.0\<close> and the empty country, the right fund holds none of the three; the merged
  record holds none of them, because \<open>or\<close> passes over a falsy left operand.
\<close>

theorem Fund_add_drops_zero_value:
  "Fund_add
     \<lparr>isin = ''IT1234567890'', value_number = Some 0, quantity = 10, names = [],
       value' = Some 0, country = Some [], currency = None\<rparr>
     \<lparr>isin = ''IT1234567890'', value_number = None, quantity = 1, names = [],
       value' = None, country = None, currency = None\<rparr>
    = Inr (\<lparr>isin = ''IT1234567890'', value_number = None, quantity = 11, names = [],
             value' = None, country = None, currency = None\<rparr>, [])"
proof -
  have m: "isin_match ''IT1234567890'' = Some ([], ''IT1234567890'', [])"
    by (simp add: isin_eval)
  show ?thesis
    by (simp add: merge_eval m)
qed

section \<open>Properties of the integer parser\<close>

lemma three_digits_nth:
  "three_digits cs \<longleftrightarrow> 2 < length cs \<and> is_digit (cs ! 0) \<and> is_digit (cs ! 1) \<and> is_digit (cs ! 2)"
proof (cases cs)
  case Nil
  then show ?thesis by (simp add: three_digits_def)
next
  case c1: (Cons a as)
  show ?thesis
  proof (cases as)
    case Nil
    with c1 show ?thesis by (simp add: three_digits_def)
  next
    case c2: (Cons b bs)
    show ?thesis
    proof (cases bs)
      case Nil
      with c1 c2 show ?thesis by (simp add: three_digits_def)
    next
      case (Cons c cs')
      with c1 c2 show ?thesis by (simp add: three_digits_def numeral_2_eq_2)
    qed
  qed
qed

lemma removable_from_Cons_0:
  "removable_from sep ad (c # cs) 0 \<longleftrightarrow> c = sep \<and> ad \<and> three_digits cs"
  by (auto simp: removable_from_def)

lemma removable_from_Cons_Suc:
  "removable_from sep ad (c # cs) (Suc j) \<longleftrightarrow> removable_from sep (is_digit c) cs j"
  by (cases j) (auto simp: removable_from_def)

lemma sub_sep_nths:
  "sub_sep sep ad s = nths s {i. \<not> removable_from sep ad s i}"
proof (induction s arbitrary: ad)
  case Nil
  show ?case by simp
next
  case (Cons c cs)
  have tail: "{j. Suc j \<in> {i. \<not> removable_from sep ad (c # cs) i}}
              = {j. \<not> removable_from sep (is_digit c) cs j}"
    by (simp add: removable_from_Cons_Suc)
  have "nths (c # cs) {i. \<not> removable_from sep ad (c # cs) i}
        = (if 0 \<in> {i. \<not> removable_from sep ad (c # cs) i} then [c] else [])
          @ nths cs {j. Suc j \<in> {i. \<not> removable_from sep ad (c # cs) i}}"
    by (rule nths_Cons)
  also have "\<dots> = (if removable_from sep ad (c # cs) 0 then [] else [c])
                    @ sub_sep sep (is_digit c) cs"
    unfolding tail Cons.IH by simp
  finally show ?case
    by (simp add: removable_from_Cons_0)
qed

lemma removable_from_False:
  "removable_from sep False s i \<longleftrightarrow> removable sep s i"
proof (cases "i = 0")
  case True
  then show ?thesis by (simp add: removable_from_def removable_def)
next
  case False
  have "three_digits (drop (Suc i) s) \<longleftrightarrow>
          i + 3 < length s \<and> is_digit (s ! (i + 1)) \<and> is_digit (s ! (i + 2)) \<and> is_digit (s ! (i + 3))"
    by (auto simp: three_digits_nth eval_nat_numeral)
  with False show ?thesis
    by (auto simp: removable_from_def removable_def)
qed

lemma sub_thousand_nths:
  "sub_thousand sep s = nths s {i. \<not> removable sep s i}"
  by (simp add: sub_thousand_def sub_sep_nths removable_from_False)

lemma digit_not_underscore: "is_digit c \<Longrightarrow> c \<noteq> CHR ''_''"
  by (auto simp: is_digit_def)

lemma no_double_underscore_Cons:
  "no_double_underscore (c # cs) \<longleftrightarrow>
     (cs \<noteq> [] \<longrightarrow> \<not> (c = CHR ''_'' \<and> hd cs = CHR ''_'')) \<and> no_double_underscore cs"
proof -
  have "(\<forall>i. Suc i < length (c # cs) \<longrightarrow> \<not> ((c # cs) ! i = CHR ''_'' \<and> (c # cs) ! Suc i = CHR ''_''))
        \<longleftrightarrow> (0 < length cs \<longrightarrow> \<not> (c = CHR ''_'' \<and> cs ! 0 = CHR ''_''))
            \<and> (\<forall>i. Suc i < length cs \<longrightarrow> \<not> (cs ! i = CHR ''_'' \<and> cs ! Suc i = CHR ''_''))"
    (is "(\<forall>i. ?P i) \<longleftrightarrow> ?Q \<and> (\<forall>i. ?R i)")
  proof
    assume all: "\<forall>i. ?P i"
    have "?Q" using all [rule_format, of 0] by simp
    moreover have "?R i" for i using all [rule_format, of "Suc i"] by simp
    ultimately show "?Q \<and> (\<forall>i. ?R i)" by blast
  next
    assume qr: "?Q \<and> (\<forall>i. ?R i)"
    show "\<forall>i. ?P i"
    proof
      fix i
      show "?P i" using qr by (cases i) auto
    qed
  qed
  then show ?thesis
    by (cases cs) (simp_all add: no_double_underscore_def)
qed

lemma no_double_underscore_Nil: "no_double_underscore []"
  by (simp add: no_double_underscore_def)

lemma scan_digits_accepts:
  "scan_digits ad acc body \<noteq> None \<longleftrightarrow>
     (\<forall>c\<in>set body. is_digit c \<or> c = CHR ''_'')
     \<and> (if body = [] then ad else is_digit (last body) \<and> (hd body = CHR ''_'' \<longrightarrow> ad))
     \<and> no_double_underscore body"
proof (induction body arbitrary: ad acc)
  case Nil
  show ?case by (simp add: no_double_underscore_Nil)
next
  case (Cons c cs)
  show ?case
  proof (cases "is_digit c")
    case True
    then have c: "c \<noteq> CHR ''_''" by (rule digit_not_underscore)
    have step: "scan_digits ad acc (c # cs) = scan_digits True (10 * acc + digit_val c) cs"
      using True by simp
    show ?thesis
      unfolding step Cons.IH using True c
      by (simp add: no_double_underscore_Cons no_double_underscore_Nil)
  next
    case nd: False
    show ?thesis
    proof (cases "c = CHR ''_'' \<and> ad")
      case True
      then have step: "scan_digits ad acc (c # cs) = scan_digits False acc cs"
        using nd by simp
      show ?thesis
        unfolding step Cons.IH using True nd
        by (auto simp: no_double_underscore_Cons no_double_underscore_Nil)
    next
      case False
      with nd show ?thesis by auto
    qed
  qed
qed

lemma py_int_succeeds: "(\<exists>n. py_int text = Inr n) \<longleftrightarrow> int_literal (int_strip text)"
proof -
  let ?body = "unsigned (int_strip text)"
  have "(\<exists>n. py_int text = Inr n) \<longleftrightarrow> scan_digits False 0 ?body \<noteq> None"
    by (auto simp: py_int_def Let_def split: option.splits)
  also have "\<dots> \<longleftrightarrow> digit_groups ?body"
    unfolding scan_digits_accepts digit_groups_def
    by (cases "?body") (auto dest: digit_not_underscore)
  finally show ?thesis by (simp add: int_literal_def)
qed

lemma py_int_fails: "\<not> int_literal (int_strip text) \<Longrightarrow> py_int text = Inl invalid_literal"
  using py_int_succeeds [of "text"] by (auto simp: py_int_def Let_def split: option.splits)

lemma mem_dropWhile: "x \<in> set t \<Longrightarrow> \<not> P x \<Longrightarrow> x \<in> set (dropWhile P t)"
  by (induction t) auto

lemma mem_int_strip: "x \<in> set t \<Longrightarrow> \<not> int_space x \<Longrightarrow> x \<in> set (int_strip t)"
  by (simp add: int_strip_def mem_dropWhile)

lemma mem_unsigned: "x \<in> set t \<Longrightarrow> \<not> is_sign x \<Longrightarrow> x \<in> set (unsigned t)"
  by (cases t) (auto simp: unsigned_def)

lemma int_literal_chars:
  "int_literal t \<Longrightarrow> x \<in> set t \<Longrightarrow> is_digit x \<or> is_sign x \<or> x = CHR ''_''"
  using mem_unsigned [of x t] by (auto simp: int_literal_def digit_groups_def)

lemma kept_separator:
  assumes "i < length s" "s ! i = sep" "\<not> removable sep s i"
  shows "sep \<in> set (sub_thousand sep s)"
  using assms by (auto simp: sub_thousand_nths set_nths)

text \<open>
  C4, as amended: for an integer parser configured with a thousand separator (one
  character that the pattern's character class reads literally), the normalization removes
  exactly the separator characters that stand immediately after a digit and immediately
  before at least three digits. Parsing then succeeds exactly on the texts that, after
  this normalization and after stripping the surrounding whitespace, consist of an
  optional single leading sign followed by digits, where single underscores may stand
  between digits. In particular, when the separator is neither a digit, a sign, an
  underscore nor whitespace, a text with a separator that the normalization leaves in
  place fails with a \<open>ValueError\<close>.
\<close>

theorem IntParser_value_separator:
  assumes "sep \<noteq> CHR ''^''" and "sep \<noteq> CHR 0x5C"
  shows "sub_thousand sep s = nths s {i. \<not> removable sep s i}
         \<and> ((\<exists>n. IntParser_value (Some sep) s = Inr n)
              \<longleftrightarrow> int_literal (int_strip (sub_thousand sep s)))
         \<and> (\<not> is_digit sep \<and> \<not> is_sign sep \<and> sep \<noteq> CHR ''_'' \<and> \<not> int_space sep
              \<and> (\<exists>i<length s. s ! i = sep \<and> \<not> removable sep s i)
              \<longrightarrow> IntParser_value (Some sep) s = Inl invalid_literal)"
proof (intro conjI impI)
  show "sub_thousand sep s = nths s {i. \<not> removable sep s i}"
    by (rule sub_thousand_nths)
  have run: "IntParser_value (Some sep) s = py_int (sub_thousand sep s)"
    using assms by (simp add: IntParser_value_def)
  show "(\<exists>n. IntParser_value (Some sep) s = Inr n)
          \<longleftrightarrow> int_literal (int_strip (sub_thousand sep s))"
    unfolding run by (rule py_int_succeeds)
  assume h: "\<not> is_digit sep \<and> \<not> is_sign sep \<and> sep \<noteq> CHR ''_'' \<and> \<not> int_space sep
              \<and> (\<exists>i<length s. s ! i = sep \<and> \<not> removable sep s i)"
  then have "sep \<in> set (sub_thousand sep s)" using kept_separator by blast
  with h have "sep \<in> set (int_strip (sub_thousand sep s))" by (simp add: mem_int_strip)
  with h have "\<not> int_literal (int_strip (sub_thousand sep s))"
    using int_literal_chars by blast
  then show "IntParser_value (Some sep) s = Inl invalid_literal"
    unfolding run by (rule py_int_fails)
qed

theorem IntParser_value_separator_witness:
  "CHR '','' \<noteq> CHR ''^'' \<and> CHR '','' \<noteq> CHR 0x5C
   \<and> sub_thousand CHR '','' ''1,000'' = ''1000''
   \<and> nths ''1,000'' {i. \<not> removable CHR '','' ''1,000'' i} = ''1000''
   \<and> IntParser_value (Some CHR '','') ''1,000'' = Inr 1000
   \<and> int_literal (int_strip (sub_thousand CHR '','' ''1,000''))
   \<and> (\<exists>i<length ''1,00''. ''1,00'' ! i = CHR '','' \<and> \<not> removable CHR '','' ''1,00'' i)
   \<and> IntParser_value (Some CHR '','') ''1,00'' = Inl invalid_literal"
proof -
  have sep: "CHR '','' \<noteq> CHR ''^''" "CHR '','' \<noteq> CHR 0x5C" by simp_all
  note good = IntParser_value_separator [OF sep, of "''1,000''"]
  note bad = IntParser_value_separator [OF sep, of "''1,00''"]
  have sub: "sub_thousand CHR '','' ''1,000'' = ''1000''"
    by (simp add: sub_thousand_def three_digits_def is_digit_def)
  have run: "IntParser_value (Some CHR '','') ''1,000'' = Inr 1000"
    by (simp add: IntParser_value_def sub py_int_def int_strip_def int_space_def unsigned_def
        is_sign_def is_digit_def digit_val_def)
  have lit: "int_literal (int_strip (sub_thousand CHR '','' ''1,000''))"
    using good run by blast
  have kept: "\<exists>i<length ''1,00''. ''1,00'' ! i = CHR '','' \<and> \<not> removable CHR '','' ''1,00'' i"
    by (rule exI [of _ 1]) (simp add: removable_def)
  have other: "\<not> is_digit CHR '','' \<and> \<not> is_sign CHR '','' \<and> CHR '','' \<noteq> CHR ''_''
               \<and> \<not> int_space CHR '',''"
    by (simp add: is_digit_def is_sign_def int_space_def)
  have fails: "IntParser_value (Some CHR '','') ''1,00'' = Inl invalid_literal"
    using bad other kept by blast
  show ?thesis using sep sub good run lit kept fails by simp
qed

text \<open>
  C4 as stated fails on \<open>"1,0000"\<close>: four digits follow the separator, which is removed
  all the same, and the text parses to \<open>10000\<close>. It also fails on \<open>" 12"\<close> and on
  \<open>"1_2"\<close>, which are not a sign followed by digits only and still parse to \<open>12\<close>.
\<close>

theorem IntParser_value_four_digits_counterexample:
  "\<not> exactly_three_follow ''1,0000'' 1
   \<and> sub_thousand CHR '','' ''1,0000'' = ''10000''
   \<and> IntParser_value (Some CHR '','') ''1,0000'' = Inr 10000
   \<and> \<not> signed_digits (sub_thousand CHR '','' '' 12'')
   \<and> IntParser_value (Some CHR '','') '' 12'' = Inr 12
   \<and> \<not> signed_digits (sub_thousand CHR '','' ''1_2'')
   \<and> IntParser_value (Some CHR '','') ''1_2'' = Inr 12"
  by (simp add: exactly_three_follow_def signed_digits_def IntParser_value_def sub_thousand_def
      three_digits_def py_int_def int_strip_def int_space_def unsigned_def is_sign_def
      is_digit_def digit_val_def)

section \<open>Properties of the table\<close>

subsection \<open>Dictionaries\<close>


lemma map_of_dict_set: "map_of (dict_set d k v) = (map_of d)(k \<mapsto> v)"
  by (induction d) (auto simp: fun_eq_iff)

lemma keys_dict_set: "fst ` set (dict_set d k v) = insert k (fst ` set d)"
proof (induction d)
  case Nil
  show ?case by simp
next
  case (Cons a d)
  obtain k' v' where "a = (k', v')" by (cases a)
  with Cons.IH show ?case by (cases "k' = k") auto
qed

lemma distinct_dict_set: "distinct (map fst d) \<Longrightarrow> distinct (map fst (dict_set d k v))"
proof (induction d)
  case Nil
  show ?case by simp
next
  case (Cons a d)
  obtain k' v' where a: "a = (k', v')" by (cases a)
  show ?case
  proof (cases "k' = k")
    case True
    with Cons.prems a show ?thesis by simp
  next
    case False
    have "fst ` set (dict_set d k v) = insert k (fst ` set d)"
      by (rule keys_dict_set)
    with False Cons a show ?thesis by auto
  qed
qed

lemma cell_n_row [simp]: "cell (t\<lparr>n_row := k\<rparr>) row i = cell t row i"
  by (simp add: cell_def)

lemma good_row_n_row [simp]: "good_row (t\<lparr>n_row := k\<rparr>) row = good_row t row"
  by (simp add: good_row_def)

lemma malformed_row_n_row [simp]: "malformed_row (t\<lparr>n_row := k\<rparr>) row = malformed_row t row"
  by (simp add: malformed_row_def)



subsection \<open>Iteration skips a malformed row\<close>








lemma raising_row_n_row [simp]: "raising_row (t\<lparr>n_row := k\<rparr>) row e = raising_row t row e"
  by (simp add: raising_row_def)








lemma demo_selected_eq:
  "select demo_spec demo_table =
     (True, \<lparr>header_raw = [''Full Name'', ''Numeric Id'', ''Amount''],
             content = [[''Foo'', ''X'', ''5''], [''Bar'', ''1,100'', ''123'']],
             selected = [(''name'', 0), (''id'', 1), (''A'', 2)],
             parsers = [(0, Parser), (1, Parser), (2, Parser)], n_row = 0\<rparr>)"
  by (simp add: select_def demo_spec_def demo_table_def)










subsection \<open>Selection and parser assignment\<close>

lemma demo_parsed_eq:
  "demo_parsed =
     \<lparr>header_raw = [''Full Name'', ''Numeric Id'', ''Amount''],
      content = [[''Foo'', ''X'', ''5''], [''Bar'', ''1,100'', ''123'']],
      selected = [(''name'', 0), (''id'', 1), (''A'', 2)],
      parsers = [(0, Parser), (1, IntParser (Some CHR '','')), (2, Parser)], n_row = 0\<rparr>"
  by (simp add: demo_parsed_def demo_selected_def demo_selected_eq parse_with_def)

lemma map_of_identity_parsers:
  "map_of (identity_parsers cols acc) i = (if i \<in> set cols then Some Parser else map_of acc i)"
  by (induction cols arbitrary: acc) (auto simp: map_of_dict_set)

lemma index_Some: "x \<in> set xs \<Longrightarrow> \<exists>i. index xs x = Some i \<and> i < length xs \<and> xs ! i = x"
  by (induction xs) auto

lemma index_None: "x \<notin> set xs \<Longrightarrow> index xs x = None"
  by (induction xs) auto

lemma select_columns_Some:
  "\<forall>(label, column)\<in>set cols. column \<in> set h \<Longrightarrow> \<exists>sel. select_columns h cols acc = Some sel"
proof (induction cols arbitrary: acc)
  case Nil
  show ?case by simp
next
  case (Cons a cols)
  obtain label column where a: "a = (label, column)" by (cases a)
  with Cons.prems have "column \<in> set h" by simp
  then obtain i where "index h column = Some i" using index_Some by fastforce
  moreover have "\<forall>(label, column)\<in>set cols. column \<in> set h" using Cons.prems by simp
  ultimately show ?case using Cons.IH a by simp
qed

lemma set_dict_set: "set (dict_set d k v) \<subseteq> insert (k, v) (set d)"
  by (induction d) (auto split: if_splits)

lemma select_columns_invariant:
  assumes "select_columns h cols acc = Some sel"
    and "distinct (map fst acc)" "\<forall>(label, i)\<in>set acc. i < length h"
  shows "distinct (map fst sel) \<and> (\<forall>(label, i)\<in>set sel. i < length h)"
  using assms
proof (induction cols arbitrary: acc)
  case Nil
  then show ?case by simp
next
  case (Cons a cols)
  obtain label column where a: "a = (label, column)" by (cases a)
  with Cons.prems(1) obtain i where i: "index h column = Some i"
    and rest: "select_columns h cols (dict_set acc label i) = Some sel"
    by (auto split: option.splits)
  have "column \<in> set h" using i index_None by fastforce
  then have "i < length h" using i index_Some by fastforce
  moreover have "set (dict_set acc label i) \<subseteq> insert (label, i) (set acc)"
    by (rule set_dict_set)
  ultimately have "\<forall>(label, i)\<in>set (dict_set acc label i). i < length h"
    using Cons.prems(3) by auto
  with Cons.IH [OF rest distinct_dict_set [OF Cons.prems(2)]] show ?case by simp
qed

lemma select_establishes:
  assumes "select spec t = (ok, t1)" "select_columns (header_raw t) (columns spec) [] \<noteq> None"
  shows "distinct (map fst (selected t1))
         \<and> (\<forall>(label, i)\<in>set (selected t1).
               i < length (header_raw t1) \<and> map_of (parsers t1) i = Some Parser)"
proof -
  from assms obtain sel where sel: "select_columns (header_raw t) (columns spec) [] = Some sel"
    and t1: "t1 = t\<lparr>selected := sel, parsers := identity_parsers (map snd sel) []\<rparr>"
    by (auto simp: select_def split: option.splits)
  from select_columns_invariant [OF sel] have "distinct (map fst sel)"
    "\<forall>(label, i)\<in>set sel. i < length (header_raw t)" by simp_all
  then show ?thesis
    by (force simp: t1 map_of_identity_parsers)
qed

text \<open>
  C8: on a table whose header matches the specification, \<open>select\<close> succeeds, a second
  \<open>select\<close> with the same specification succeeds and leaves the table as the first one
  made it, so \<open>selected\<close> is the same mapping after each call; after the call every
  selected column has the identity parser, also when parsers were assigned in between.
\<close>

theorem select_idempotent:
  assumes "matches spec t"
  shows "\<exists>t1. select spec t = (True, t1) \<and> select spec t1 = (True, t1)
              \<and> (\<forall>(label, i)\<in>set (selected t1). map_of (parsers t1) i = Some Parser)
              \<and> select spec (snd (parse_with new_parsers strict t1)) = (True, t1)"
proof -
  from assms obtain sel where sel: "select_columns (header_raw t) (columns spec) [] = Some sel"
    using select_columns_Some [of "columns spec" "header_raw t" "[]"] by (auto simp: matches_def)
  define t1 where "t1 = t\<lparr>selected := sel, parsers := identity_parsers (map snd sel) []\<rparr>"
  have ok: "(case drop_columns spec of None \<Rightarrow> True
              | Some d \<Rightarrow> list_all (\<lambda>column. column \<in> set (header_raw t)) d)"
    using assms by (auto simp: matches_def list_all_iff split: option.splits)
  have first: "select spec t = (True, t1)"
    using sel ok by (auto simp: select_def t1_def split: option.splits)
  have again: "select spec t1 = (True, t1)"
    using sel ok by (auto simp: select_def t1_def split: option.splits)
  have ident: "\<forall>(label, i)\<in>set (selected t1). map_of (parsers t1) i = Some Parser"
    by (force simp: t1_def map_of_identity_parsers)
  have "\<exists>ps. snd (parse_with new_parsers strict t1) = t1\<lparr>parsers := ps\<rparr>"
    by (auto simp: parse_with_def Let_def intro: exI [of _ "parsers t1"])
  then obtain ps where "snd (parse_with new_parsers strict t1) = t1\<lparr>parsers := ps\<rparr>" by blast
  then have reset: "select spec (snd (parse_with new_parsers strict t1)) = (True, t1)"
    using sel ok by (auto simp: select_def t1_def split: option.splits)
  from first again ident reset show ?thesis by blast
qed

theorem select_idempotent_witness:
  "matches demo_spec demo_table
   \<and> select demo_spec demo_table = (True, demo_selected)
   \<and> select demo_spec demo_selected = (True, demo_selected)
   \<and> selected demo_selected = [(''name'', 0), (''id'', 1), (''A'', 2)]
   \<and> map_of (parsers demo_selected) 0 = Some Parser
   \<and> map_of (parsers demo_selected) 1 = Some Parser
   \<and> map_of (parsers demo_selected) 2 = Some Parser
   \<and> select demo_spec demo_parsed = (True, demo_selected)"
proof -
  have m: "matches demo_spec demo_table"
    by (simp add: matches_def demo_spec_def demo_table_def)
  have s: "select demo_spec demo_table = (True, demo_selected)"
    by (simp add: demo_selected_def demo_selected_eq)
  have sel: "selected demo_selected = [(''name'', 0), (''id'', 1), (''A'', 2)]"
    by (simp add: demo_selected_def demo_selected_eq)
  from select_idempotent [OF m, of "[(''id'', IntParser (Some CHR '',''))]" True] m s sel
  show ?thesis by (auto simp: demo_parsed_def)
qed

text \<open>
  C9: when the given parsers name a label that is not selected, a strict \<open>parse_with\<close>
  returns \<open>False\<close> and the table, its parsers included, is what it was.
\<close>

theorem parse_with_strict_unknown:
  assumes "\<exists>(label, p)\<in>set new_parsers. label \<notin> set (map fst (selected t))"
  shows "parse_with new_parsers True t = (False, t)"
  using assms by (auto simp: parse_with_def list_ex_iff)

theorem parse_with_strict_unknown_witness:
  "(\<exists>(label, p)\<in>set [(''id'', IntParser None), (''missing'', Parser)].
       label \<notin> set (map fst (selected demo_selected)))
   \<and> parse_with [(''id'', IntParser None), (''missing'', Parser)] True demo_selected
       = (False, demo_selected)"
proof -
  have h: "\<exists>(label, p)\<in>set [(''id'', IntParser None), (''missing'', Parser)].
       label \<notin> set (map fst (selected demo_selected))"
    by (simp add: demo_selected_def demo_selected_eq)
  from parse_with_strict_unknown [OF h] h show ?thesis by blast
qed

end
